theory Spec2Isabelle
  imports Complex_Main
begin

section \<open>The model of scripts/gameOfLife.js\<close>

text \<open>
  The script is one closure, \<^verbatim>\<open>startGameOfLife\<close>, whose local variables are the state
  of the program and whose inner functions read and write them.  The model passes
  that state explicitly as the record \<open>world\<close>.  A JavaScript exception is a value
  on the left of a sum; numbers that the script keeps integral are \<open>int\<close>.
\<close>

subsection \<open>Data\<close>

datatype error = RangeError | TypeError

text \<open>A cell object \<^verbatim>\<open>{alive, color, fade}\<close>; \<open>alive\<close> holds the numbers 1 and 0.\<close>

record cell =
  alive :: int
  color :: string
  fade :: int

type_synonym grid = "cell list list"

text \<open>
  \<^verbatim>\<open>Math.random()\<close> is the only source of randomness.  The model takes the values
  it is going to return, in order, as a sequence; a call reads the head and leaves the
  rest.  Arithmetic on a drawn value is exact in the model.
\<close>

type_synonym rng = "nat \<Rightarrow> real"

datatype action = Add | Remove

record world =
  width :: int
  height :: int
  cellSize :: int
  cols :: int
  rows :: int
  grid :: grid
  isDragging :: bool
  dragAction :: "action option"
  touchedCells :: "(int \<times> int) set"
  lastUpdateTime :: int
  randoms :: rng

text \<open>
  \<open>touchedCells\<close> is the script's set of keys \<^verbatim>\<open>`${col},${row}`\<close>; two pairs of integers
  have the same key exactly when they are equal, so the model keeps the pairs.
  \<open>dragAction\<close> is \<open>None\<close> for \<^verbatim>\<open>null\<close>.
\<close>

subsection \<open>Loops and array accesses\<close>

text \<open>A \<^verbatim>\<open>for\<close> loop whose body may throw: the first exception ends the loop.\<close>

fun for_each :: "'a list \<Rightarrow> ('a \<Rightarrow> 's \<Rightarrow> error + 's) \<Rightarrow> 's \<Rightarrow> error + 's" where
  "for_each [] body s = Inr s"
| "for_each (x # xs) body s =
     (case body x s of Inl e \<Rightarrow> Inl e | Inr s' \<Rightarrow> for_each xs body s')"

text \<open>
  JavaScript's \<^verbatim>\<open>%\<close> takes the sign of the dividend; with a zero divisor the result is
  \<^verbatim>\<open>NaN\<close>, here \<open>None\<close>.
\<close>

definition js_rem :: "int \<Rightarrow> int \<Rightarrow> int option" where
  "js_rem a b = (if b = 0 then None else Some (sgn a * (\<bar>a\<bar> mod \<bar>b\<bar>)))"

text \<open>
  \<^verbatim>\<open>g[col][row]\<close> followed by a property access.  Outside the array the script reads
  \<^verbatim>\<open>undefined\<close> and the property access throws a TypeError: that is \<open>None\<close>.
\<close>

definition cell_at :: "grid \<Rightarrow> int \<Rightarrow> int \<Rightarrow> cell option" where
  "cell_at g col row =
     (if 0 \<le> col \<and> col < int (length g) \<and> 0 \<le> row \<and> row < int (length (g ! nat col))
      then Some (g ! nat col ! nat row) else None)"

text \<open>Assignment to the fields of \<^verbatim>\<open>g[col][row]\<close>, used once \<open>cell_at\<close> has found the cell.\<close>

definition put_cell :: "grid \<Rightarrow> int \<Rightarrow> int \<Rightarrow> cell \<Rightarrow> grid" where
  "put_cell g col row c = g[nat col := (g ! nat col)[nat row := c]]"

subsection \<open>Colours\<close>

text \<open>The decimal numeral that a template literal prints for an integer.\<close>

fun decimal :: "nat \<Rightarrow> string" where
  "decimal n =
     (if n < 10 then [''0123456789'' ! n]
      else decimal (n div 10) @ [''0123456789'' ! (n mod 10)])"

declare decimal.simps [simp del]

definition js_int_string :: "int \<Rightarrow> string" where
  "js_int_string i = (if i < 0 then ''-'' @ decimal (nat (- i)) else decimal (nat i))"

definition getRandomColor :: "rng \<Rightarrow> string \<times> rng" where
  "getRandomColor rnd =
     (let hue = \<lfloor>rnd 0 * 360\<rfloor>
      in (''hsl('' @ js_int_string hue @ '', 100%, 70%)'', \<lambda>n. rnd (Suc n)))"

subsection \<open>Creating the grid\<close>

text \<open>
  \<^verbatim>\<open>new Array(n)\<close> throws a RangeError unless \<open>n\<close> is an integer from 0 to \<open>2^32 - 1\<close>.
\<close>

definition new_Array :: "int \<Rightarrow> error + nat" where
  "new_Array n = (if n < 0 \<or> 2 ^ 32 \<le> n then Inl RangeError else Inr (nat n))"

text \<open>\<^verbatim>\<open>.fill(null).map(f)\<close> on an array of length \<open>n\<close>: \<open>f\<close> runs for index 0, 1, ...\<close>

fun fill_map :: "nat \<Rightarrow> (rng \<Rightarrow> error + ('a \<times> rng)) \<Rightarrow> rng \<Rightarrow> error + ('a list \<times> rng)" where
  "fill_map 0 f rnd = Inr ([], rnd)"
| "fill_map (Suc n) f rnd =
     (case f rnd of
        Inl e \<Rightarrow> Inl e
      | Inr (a, rnd') \<Rightarrow>
          (case fill_map n f rnd' of
             Inl e \<Rightarrow> Inl e
           | Inr (as, rnd'') \<Rightarrow> Inr (a # as, rnd'')))"

definition new_cell :: "rng \<Rightarrow> cell \<times> rng" where
  "new_cell rnd =
     (let a = (if rnd 0 < 35 / 100 then 1 else 0);
          (c, rnd') = getRandomColor (\<lambda>n. rnd (Suc n))
      in (\<lparr>alive = a, color = c, fade = 0\<rparr>, rnd'))"

definition createGrid :: "int \<Rightarrow> int \<Rightarrow> rng \<Rightarrow> error + (grid \<times> rng)" where
  "createGrid cs rs rnd =
     (case new_Array cs of
        Inl e \<Rightarrow> Inl e
      | Inr n \<Rightarrow>
          fill_map n
            (\<lambda>r. case new_Array rs of
                    Inl e \<Rightarrow> Inl e
                  | Inr m \<Rightarrow> fill_map m (\<lambda>r'. Inr (new_cell r')) r)
            rnd)"

text \<open>
  \<^verbatim>\<open>resizeCanvas\<close> reads the layout size of the canvas, an input of the model, in whole
  pixels; the cell size is a whole number too.  For integers \<open>Math.floor(a / b)\<close> is
  \<open>a div b\<close>.  With a zero cell size the quotient is \<^verbatim>\<open>NaN\<close> or \<^verbatim>\<open>Infinity\<close>, which
  \<^verbatim>\<open>new Array\<close> rejects.
\<close>

definition resizeCanvas :: "int \<Rightarrow> int \<Rightarrow> world \<Rightarrow> error + world" where
  "resizeCanvas offsetWidth offsetHeight w =
     (let w1 = w\<lparr>width := offsetWidth, height := offsetHeight\<rparr>
      in if cellSize w1 = 0 then Inl RangeError
         else
           let w2 = w1\<lparr>cols := width w1 div cellSize w1, rows := height w1 div cellSize w1\<rparr>
           in case createGrid (cols w2) (rows w2) (randoms w2) of
                Inl e \<Rightarrow> Inl e
              | Inr (g, rnd) \<Rightarrow> Inr (w2\<lparr>grid := g, randoms := rnd\<rparr>))"

subsection \<open>Painting\<close>

text \<open>
  The body of the two loops of \<^verbatim>\<open>drawGrid\<close>.  The calls on the 2D context paint the
  canvas and give nothing back to the script; of the body the model keeps the tests and
  the one write to the grid.
\<close>

definition drawCell :: "int \<Rightarrow> int \<Rightarrow> grid \<Rightarrow> error + grid" where
  "drawCell x y g =
     (case cell_at g x y of
        None \<Rightarrow> Inl TypeError
      | Some c \<Rightarrow>
          if alive c \<noteq> 0 then Inr g
          else if fade c > 0 then Inr (put_cell g x y (c\<lparr>fade := fade c - 1\<rparr>))
          else Inr g)"

definition drawGrid :: "world \<Rightarrow> error + world" where
  "drawGrid w =
     (case for_each [0..cols w - 1] (\<lambda>x. for_each [0..rows w - 1] (\<lambda>y. drawCell x y)) (grid w) of
        Inl e \<Rightarrow> Inl e
      | Inr g \<Rightarrow> Inr (w\<lparr>grid := g\<rparr>))"

subsection \<open>The transition\<close>

definition countNeighbors :: "world \<Rightarrow> int \<Rightarrow> int \<Rightarrow> error + int" where
  "countNeighbors w x y =
     for_each [- 1, 0, 1] (\<lambda>i. for_each [- 1, 0, 1] (\<lambda>j sum.
         if i = 0 \<and> j = 0 then Inr sum
         else
           (case (js_rem (x + i + cols w) (cols w), js_rem (y + j + rows w) (rows w)) of
              (Some col, Some row) \<Rightarrow>
                (case cell_at (grid w) col row of
                   None \<Rightarrow> Inl TypeError
                 | Some c \<Rightarrow> Inr (sum + alive c))
            | _ \<Rightarrow> Inl TypeError))) 0"

text \<open>
  The body of the two loops of \<^verbatim>\<open>updateGrid\<close>.  It reads the current grid of \<open>w\<close> and
  writes the clone \<open>nxt\<close>; a birth draws a colour.
\<close>

definition updateCell :: "world \<Rightarrow> int \<Rightarrow> int \<Rightarrow> grid \<times> rng \<Rightarrow> error + (grid \<times> rng)" where
  "updateCell w x y st =
     (case st of (nxt, rnd) \<Rightarrow>
        (case countNeighbors w x y of
           Inl e \<Rightarrow> Inl e
         | Inr neighbors \<Rightarrow>
             (case cell_at (grid w) x y of
                None \<Rightarrow> Inl TypeError
              | Some c \<Rightarrow>
                  if alive c = 1 then
                    (if neighbors < 2 \<or> neighbors > 3 then
                       (case cell_at nxt x y of
                          None \<Rightarrow> Inl TypeError
                        | Some n \<Rightarrow> Inr (put_cell nxt x y (n\<lparr>alive := 0, fade := 10\<rparr>), rnd))
                     else Inr (nxt, rnd))
                  else
                    (if neighbors = 3 then
                       (case cell_at nxt x y of
                          None \<Rightarrow> Inl TypeError
                        | Some n \<Rightarrow>
                            (case getRandomColor rnd of
                               (clr, rnd') \<Rightarrow>
                                 Inr (put_cell nxt x y (n\<lparr>alive := 1, color := clr, fade := 0\<rparr>),
                                      rnd')))
                     else Inr (nxt, rnd)))))"

text \<open>The deep clone of a grid of values is the grid.\<close>

definition updateGrid :: "world \<Rightarrow> error + world" where
  "updateGrid w =
     (case for_each [0..cols w - 1] (\<lambda>x. for_each [0..rows w - 1] (\<lambda>y. updateCell w x y))
             (grid w, randoms w) of
        Inl e \<Rightarrow> Inl e
      | Inr (nxt, rnd) \<Rightarrow> Inr (w\<lparr>grid := nxt, randoms := rnd\<rparr>))"

subsection \<open>Editing with the pointer\<close>






subsection \<open>The frame loop\<close>





subsection \<open>Launch\<close>

text \<open>
  \<^verbatim>\<open>options.cellSize || 10\<close>: a missing option and the number 0 give 10, any other
  number is taken as it is.  \<open>cols\<close>, \<open>rows\<close> and \<open>grid\<close> are not initialised by their
  declarations; \<^verbatim>\<open>resizeCanvas\<close> assigns all three before anything reads them.
\<close>

definition cellSize_option :: "int option \<Rightarrow> int" where
  "cellSize_option opt = (case opt of None \<Rightarrow> 10 | Some c \<Rightarrow> if c = 0 then 10 else c)"

definition startGameOfLife :: "int \<Rightarrow> int \<Rightarrow> int option \<Rightarrow> rng \<Rightarrow> error + world" where
  "startGameOfLife offsetWidth offsetHeight opt rnd =
     resizeCanvas offsetWidth offsetHeight
       \<lparr>width = 0, height = 0, cellSize = cellSize_option opt, cols = 0, rows = 0, grid = [],
        isDragging = False, dragAction = None, touchedCells = {}, lastUpdateTime = 0,
        randoms = rnd\<rparr>"

section \<open>Vocabulary of the properties\<close>

text \<open>
  A grid has the shape \<open>cs\<close> by \<open>rs\<close> when it has \<open>cs\<close> columns of \<open>rs\<close> cells each.  The
  state is well formed when the grid has the shape that \<open>cols\<close> and \<open>rows\<close> announce;
  \<^verbatim>\<open>createGrid\<close> builds it so, and every function of the script keeps it so.  (A grid
  without columns says nothing about \<open>rs\<close>.)
\<close>

definition shaped :: "int \<Rightarrow> int \<Rightarrow> grid \<Rightarrow> bool" where
  "shaped cs rs g \<longleftrightarrow>
     0 \<le> cs \<and> length g = nat cs \<and> (\<forall>column \<in> set g. 0 \<le> rs \<and> length column = nat rs)"

definition well_formed :: "world \<Rightarrow> bool" where
  "well_formed w \<longleftrightarrow> shaped (cols w) (rows w) (grid w)"

text \<open>The cell of the grid \<open>g\<close> at column \<open>x\<close> and row \<open>y\<close>, for a position inside the grid.\<close>

definition the_cell :: "grid \<Rightarrow> int \<Rightarrow> int \<Rightarrow> cell" where
  "the_cell g x y = g ! nat x ! nat y"

text \<open>
  The neighbourhood in the words of the specification: the eight offsets \<open>(i, j)\<close> with
  \<open>i\<close> and \<open>j\<close> among -1, 0, 1, without \<open>(0, 0)\<close>, each taken modulo the size of the grid.
\<close>

definition offsets :: "(int \<times> int) list" where
  "offsets = filter (\<lambda>p. p \<noteq> (0, 0)) (List.product [- 1, 0, 1] [- 1, 0, 1])"

definition torus_cell :: "world \<Rightarrow> int \<Rightarrow> int \<Rightarrow> cell" where
  "torus_cell w a b = the_cell (grid w) (a mod cols w) (b mod rows w)"

definition toroidal_sum :: "world \<Rightarrow> int \<Rightarrow> int \<Rightarrow> int" where
  "toroidal_sum w x y = (\<Sum>(i, j) \<leftarrow> offsets. alive (torus_cell w (x + i) (y + j)))"

text \<open>
  What one transition makes of the cell at \<open>(x, y)\<close>: \<open>old\<close> is the cell before, \<open>new\<close> the
  cell after, and the neighbours are counted in the grid of \<open>w\<close>, the state before the
  transition.  A colour drawn during the transition comes from the sequence of \<open>w\<close>.
\<close>

definition transition :: "world \<Rightarrow> int \<Rightarrow> int \<Rightarrow> cell \<Rightarrow> cell \<Rightarrow> bool" where
  "transition w x y old new \<longleftrightarrow>
     (if alive (the_cell (grid w) x y) = 1 then
        (if toroidal_sum w x y < 2 \<or> toroidal_sum w x y > 3
         then new = old\<lparr>alive := 0, fade := 10\<rparr> else new = old)
      else
        (if toroidal_sum w x y = 3
         then \<exists>k. new = old\<lparr>alive := 1,
                               color := fst (getRandomColor (\<lambda>n. randoms w (n + k))),
                               fade := 0\<rparr>
         else new = old))"

text \<open>
  The column and the row that \<^verbatim>\<open>countNeighbors\<close> computes (lines 120 and 121) for the
  offset \<open>p\<close> from \<open>(x, y)\<close>.
\<close>

definition neighbor_position :: "world \<Rightarrow> int \<Rightarrow> int \<Rightarrow> int \<times> int \<Rightarrow> int option \<times> int option" where
  "neighbor_position w x y p =
     (js_rem (x + fst p + cols w) (cols w), js_rem (y + snd p + rows w) (rows w))"




subsection \<open>Repeated painting\<close>

text \<open>\<open>draws n\<close> paints the grid \<open>n\<close> times in a row, with no transition in between.\<close>

fun draws :: "nat \<Rightarrow> world \<Rightarrow> error + world" where
  "draws 0 w = Inr w"
| "draws (Suc n) w = (case drawGrid w of Inl e \<Rightarrow> Inl e | Inr w' \<Rightarrow> draws n w')"

subsection \<open>Sample states\<close>

definition live :: cell where
  "live = \<lparr>alive = 1, color = ''hsl(120, 100%, 70%)'', fade = 0\<rparr>"

definition dead :: cell where
  "dead = \<lparr>alive = 0, color = ''hsl(240, 100%, 70%)'', fade = 0\<rparr>"

definition fading :: cell where
  "fading = \<lparr>alive = 0, color = ''hsl(30, 100%, 70%)'', fade = 3\<rparr>"

text \<open>A random sequence whose every value is 1/2.\<close>

definition halves :: rng where
  "halves = (\<lambda>n. 1 / 2)"

definition sample :: "int \<Rightarrow> int \<Rightarrow> grid \<Rightarrow> world" where
  "sample cs rs g =
     \<lparr>width = 10 * cs, height = 10 * rs, cellSize = 10, cols = cs, rows = rs, grid = g,
      isDragging = False, dragAction = None, touchedCells = {}, lastUpdateTime = 0,
      randoms = halves\<rparr>"

text \<open>Three columns of four cells; the only live cell is the last of the last column.\<close>

definition corner :: world where
  "corner = sample 3 4 [[dead, dead, dead, dead], [dead, dead, dead, dead], [dead, dead, dead, live]]"

text \<open>Three by three, the centre alive, a fading cell in the first corner.\<close>

definition lone :: world where
  "lone = sample 3 3 [[fading, dead, dead], [dead, live, dead], [dead, dead, dead]]"

text \<open>Three by three with three live cells; on this torus every cell has the other eight
  as neighbours.\<close>

definition ell :: world where
  "ell = sample 3 3 [[live, live, dead], [live, dead, dead], [dead, dead, dead]]"

text \<open>One cell, alive.\<close>

definition single :: world where
  "single = sample 1 1 [[live]]"

section \<open>Facts about the model\<close>

subsection \<open>Loops\<close>

lemma for_each_append:
  "for_each (xs @ ys) body s =
     (case for_each xs body s of Inl e \<Rightarrow> Inl e | Inr s' \<Rightarrow> for_each ys body s')"
  by (induction xs arbitrary: s) (auto split: sum.splits)

lemma for_each_map:
  "for_each (map f xs) body s = for_each xs (\<lambda>x. body (f x)) s"
  by (induction xs arbitrary: s) (auto split: sum.splits)

lemma for_each_product:
  "for_each xs (\<lambda>x. for_each ys (body x)) s =
     for_each (List.product xs ys) (\<lambda>p. body (fst p) (snd p)) s"
  by (induction xs arbitrary: s) (auto simp: for_each_append for_each_map split: sum.splits)

text \<open>
  A loop over distinct positions whose body, at position \<open>p\<close>, changes what is observed at
  \<open>p\<close> only, and there in the way \<open>R\<close> describes: after the loop every position of the
  list has changed as \<open>R\<close> describes and the others have not changed.
\<close>

lemma for_each_pointwise:
  fixes obs :: "'s \<Rightarrow> 'p \<Rightarrow> 'c"
  shows "distinct ps \<Longrightarrow> Inv s \<Longrightarrow> (\<And>p. p \<in> set ps \<Longrightarrow> Q p) \<Longrightarrow>
    (\<And>p t. p \<in> set ps \<Longrightarrow> Inv t \<Longrightarrow>
        \<exists>t'. body p t = Inr t' \<and> Inv t' \<and> (\<forall>q. q \<noteq> p \<longrightarrow> Q q \<longrightarrow> obs t' q = obs t q)
             \<and> R p (obs t p) (obs t' p)) \<Longrightarrow>
    \<exists>s'. for_each ps body s = Inr s' \<and> Inv s'
         \<and> (\<forall>q. q \<notin> set ps \<longrightarrow> Q q \<longrightarrow> obs s' q = obs s q)
         \<and> (\<forall>p \<in> set ps. R p (obs s p) (obs s' p))"
proof (induction ps arbitrary: s)
  case Nil
  then show ?case by simp
next
  case (Cons p ps)
  have "\<exists>t'. body p s = Inr t' \<and> Inv t' \<and> (\<forall>q. q \<noteq> p \<longrightarrow> Q q \<longrightarrow> obs t' q = obs s q)
             \<and> R p (obs s p) (obs t' p)"
    by (rule Cons.prems(4)) (simp_all add: Cons.prems(2))
  then obtain s1 where s1: "body p s = Inr s1" "Inv s1"
      "\<And>q. q \<noteq> p \<Longrightarrow> Q q \<Longrightarrow> obs s1 q = obs s q" "R p (obs s p) (obs s1 p)"
    by blast
  have "\<exists>s'. for_each ps body s1 = Inr s' \<and> Inv s'
         \<and> (\<forall>q. q \<notin> set ps \<longrightarrow> Q q \<longrightarrow> obs s' q = obs s1 q)
         \<and> (\<forall>p \<in> set ps. R p (obs s1 p) (obs s' p))"
  proof (rule Cons.IH)
    show "distinct ps" using Cons.prems(1) by simp
    show "Inv s1" by (rule s1)
    show "\<And>p. p \<in> set ps \<Longrightarrow> Q p" using Cons.prems(3) by simp
    show "\<And>q t. q \<in> set ps \<Longrightarrow> Inv t \<Longrightarrow>
        \<exists>t'. body q t = Inr t' \<and> Inv t' \<and> (\<forall>r. r \<noteq> q \<longrightarrow> Q r \<longrightarrow> obs t' r = obs t r)
             \<and> R q (obs t q) (obs t' q)"
      using Cons.prems(4) by simp
  qed
  then obtain s' where s': "for_each ps body s1 = Inr s'" "Inv s'"
      "\<And>q. q \<notin> set ps \<Longrightarrow> Q q \<Longrightarrow> obs s' q = obs s1 q"
      "\<And>q. q \<in> set ps \<Longrightarrow> R q (obs s1 q) (obs s' q)"
    by blast
  have p: "p \<notin> set ps" "Q p"
    using Cons.prems(1,3) by simp_all
  have "for_each (p # ps) body s = Inr s'"
    using s1(1) s'(1) by simp
  moreover have "\<forall>q. q \<notin> set (p # ps) \<longrightarrow> Q q \<longrightarrow> obs s' q = obs s q"
    using s1(3) s'(3) by simp
  moreover have "R p (obs s p) (obs s' p)"
    using s1(4) s'(3) [OF p] by simp
  moreover have "\<forall>q \<in> set ps. R q (obs s q) (obs s' q)"
  proof
    fix q assume q: "q \<in> set ps"
    then have "q \<noteq> p" "Q q"
      using p(1) Cons.prems(3) by auto
    then show "R q (obs s q) (obs s' q)"
      using s'(4) [OF q] s1(3) by simp
  qed
  ultimately show ?case
    using s'(2) by auto
qed

subsection \<open>Cells of a grid of known shape\<close>

lemma cell_at_shaped:
  assumes "shaped cs rs g" "0 \<le> x" "x < cs" "0 \<le> y" "y < rs"
  shows "cell_at g x y = Some (the_cell g x y)"
  using assms by (auto simp: shaped_def cell_at_def the_cell_def)

lemma shaped_put_cell:
  assumes "shaped cs rs g" "0 \<le> x" "x < cs"
  shows "shaped cs rs (put_cell g x y c)"
proof -
  have "g ! nat x \<in> set g"
    using assms by (simp add: shaped_def)
  then have "0 \<le> rs" "length (g ! nat x) = nat rs"
    using assms(1) by (simp_all add: shaped_def)
  then show ?thesis
    using assms unfolding shaped_def put_cell_def
    by (auto dest!: set_update_subset_insert [THEN subsetD])
qed

lemma the_cell_put_cell:
  assumes "shaped cs rs g" "0 \<le> x" "x < cs" "0 \<le> y" "y < rs" "0 \<le> x'" "x' < cs" "0 \<le> y'" "y' < rs"
  shows "the_cell (put_cell g x y c) x' y' = (if x' = x \<and> y' = y then c else the_cell g x' y')"
  using assms unfolding shaped_def put_cell_def the_cell_def
  by (auto simp: nth_list_update)

lemma cell_at_well_formed:
  assumes "well_formed w" "0 \<le> a" "a < cols w" "0 \<le> b" "b < rows w"
  shows "cell_at (grid w) a b = Some (the_cell (grid w) a b)"
  using assms by (intro cell_at_shaped [of "cols w" "rows w"]) (simp_all add: well_formed_def)

subsection \<open>Counting neighbours\<close>

lemma js_rem_wrap:
  assumes "0 \<le> x" "x < c" "- 1 \<le> i"
  shows "js_rem (x + i + c) c = Some ((x + i) mod c)"
proof -
  have "(x + i) mod c = (x + i + c) mod c"
    by simp
  moreover have "0 \<le> x + i + c" "c \<noteq> 0" "0 < c"
    using assms by auto
  ultimately show ?thesis
    unfolding js_rem_def by (cases "x + i + c = 0") (simp_all add: sgn_if abs_if)
qed

lemma js_rem_wraps:
  assumes "0 \<le> x" "x < c"
  shows "js_rem (x - 1 + c) c = Some ((x - 1) mod c)"
    and "js_rem (x + c) c = Some (x mod c)"
    and "js_rem (x + 1 + c) c = Some ((x + 1) mod c)"
  using js_rem_wrap [OF assms, of "- 1"] js_rem_wrap [OF assms, of 0] js_rem_wrap [OF assms, of 1]
  by simp_all

text \<open>
  Where the script adds the number of columns before it takes the remainder, the
  dividend is never negative, and the remainder is the residue modulo the size.
\<close>

lemma countNeighbors_sum:
  assumes "well_formed w" "0 \<le> x" "x < cols w" "0 \<le> y" "y < rows w"
  shows "countNeighbors w x y = Inr (toroidal_sum w x y)"
proof -
  have "0 < cols w" "0 < rows w"
    using assms by auto
  then show ?thesis
    unfolding countNeighbors_def toroidal_sum_def offsets_def torus_cell_def
    using assms by (simp add: js_rem_wraps cell_at_well_formed)
qed

lemma toroidal_sum_single:
  assumes "cols w = 1" "rows w = 1"
  shows "toroidal_sum w x y = 8 * alive (the_cell (grid w) 0 0)"
  using assms by (simp add: toroidal_sum_def offsets_def torus_cell_def)

subsection \<open>The two loops over the grid\<close>

text \<open>
  The same for the two nested loops over the columns and the rows of a grid.
\<close>

lemma grid_loops:
  fixes G :: "'s \<Rightarrow> grid"
  assumes inv: "Inv s"
    and step: "\<And>x y t. 0 \<le> x \<Longrightarrow> x < cs \<Longrightarrow> 0 \<le> y \<Longrightarrow> y < rs \<Longrightarrow> Inv t \<Longrightarrow>
      \<exists>t'. body x y t = Inr t' \<and> Inv t'
         \<and> (\<forall>x' y'. 0 \<le> x' \<and> x' < cs \<and> 0 \<le> y' \<and> y' < rs \<and> (x', y') \<noteq> (x, y)
               \<longrightarrow> the_cell (G t') x' y' = the_cell (G t) x' y')
         \<and> R x y (the_cell (G t) x y) (the_cell (G t') x y)"
  shows "\<exists>s'. for_each [0..cs - 1] (\<lambda>x. for_each [0..rs - 1] (body x)) s = Inr s' \<and> Inv s'
         \<and> (\<forall>x y. 0 \<le> x \<and> x < cs \<and> 0 \<le> y \<and> y < rs
               \<longrightarrow> R x y (the_cell (G s) x y) (the_cell (G s') x y))"
proof -
  let ?ps = "List.product [0..cs - 1] [0..rs - 1]"
  let ?Q = "\<lambda>p. 0 \<le> fst p \<and> fst p < cs \<and> 0 \<le> snd p \<and> snd p < rs"
  let ?obs = "\<lambda>t p. the_cell (G t) (fst p) (snd p)"
  let ?R = "\<lambda>p. R (fst p) (snd p)"
  let ?body = "\<lambda>p. body (fst p) (snd p)"
  have "\<exists>s'. for_each ?ps ?body s = Inr s' \<and> Inv s'
         \<and> (\<forall>q. q \<notin> set ?ps \<longrightarrow> ?Q q \<longrightarrow> ?obs s' q = ?obs s q)
         \<and> (\<forall>p \<in> set ?ps. ?R p (?obs s p) (?obs s' p))"
  proof (rule for_each_pointwise [where Q = ?Q])
    show "distinct ?ps"
      by (simp add: distinct_product)
    show "Inv s"
      by (rule inv)
    show "\<And>p. p \<in> set ?ps \<Longrightarrow> ?Q p"
      by auto
    show "\<And>p t. p \<in> set ?ps \<Longrightarrow> Inv t \<Longrightarrow>
        \<exists>t'. ?body p t = Inr t' \<and> Inv t' \<and> (\<forall>q. q \<noteq> p \<longrightarrow> ?Q q \<longrightarrow> ?obs t' q = ?obs t q)
             \<and> ?R p (?obs t p) (?obs t' p)"
    proof -
      fix p t assume p: "p \<in> set ?ps" and t: "Inv t"
      then have "0 \<le> fst p" "fst p < cs" "0 \<le> snd p" "snd p < rs"
        by auto
      from step [OF this t] obtain t' where t': "body (fst p) (snd p) t = Inr t'" "Inv t'"
        "\<forall>x' y'. 0 \<le> x' \<and> x' < cs \<and> 0 \<le> y' \<and> y' < rs \<and> (x', y') \<noteq> (fst p, snd p)
               \<longrightarrow> the_cell (G t') x' y' = the_cell (G t) x' y'"
        "R (fst p) (snd p) (the_cell (G t) (fst p) (snd p)) (the_cell (G t') (fst p) (snd p))"
        by blast
      have "\<forall>q. q \<noteq> p \<longrightarrow> ?Q q \<longrightarrow> ?obs t' q = ?obs t q"
        using t'(3) by (metis prod.collapse)
      then show "\<exists>t'. ?body p t = Inr t' \<and> Inv t' \<and> (\<forall>q. q \<noteq> p \<longrightarrow> ?Q q \<longrightarrow> ?obs t' q = ?obs t q)
             \<and> ?R p (?obs t p) (?obs t' p)"
        using t' by blast
    qed
  qed
  then obtain s' where s': "for_each ?ps ?body s = Inr s'" "Inv s'"
      "\<forall>p \<in> set ?ps. ?R p (?obs s p) (?obs s' p)"
    by blast
  have "\<forall>x y. 0 \<le> x \<and> x < cs \<and> 0 \<le> y \<and> y < rs
               \<longrightarrow> R x y (the_cell (G s) x y) (the_cell (G s') x y)"
  proof (intro allI impI)
    fix x y assume "0 \<le> x \<and> x < cs \<and> 0 \<le> y \<and> y < rs"
    then have "(x, y) \<in> set ?ps"
      by simp
    from s'(3) [rule_format, OF this] show "R x y (the_cell (G s) x y) (the_cell (G s') x y)"
      by simp
  qed
  then show ?thesis
    using s'(1,2) by (simp add: for_each_product)
qed

subsection \<open>Painting\<close>

lemma drawCell_step:
  assumes "shaped cs rs g" "0 \<le> x" "x < cs" "0 \<le> y" "y < rs"
  shows "\<exists>g'. drawCell x y g = Inr g' \<and> shaped cs rs g'
     \<and> (\<forall>x' y'. 0 \<le> x' \<and> x' < cs \<and> 0 \<le> y' \<and> y' < rs \<and> (x', y') \<noteq> (x, y)
               \<longrightarrow> the_cell g' x' y' = the_cell g x' y')
     \<and> the_cell g' x y =
         (if alive (the_cell g x y) = 0 \<and> fade (the_cell g x y) > 0
          then (the_cell g x y)\<lparr>fade := fade (the_cell g x y) - 1\<rparr> else the_cell g x y)"
  using assms
  by (auto simp: drawCell_def cell_at_shaped shaped_put_cell the_cell_put_cell)

text \<open>What one run of the painter does to every cell of a well-formed state.\<close>

lemma drawGrid_cells:
  assumes "well_formed w"
  shows "\<exists>w'. drawGrid w = Inr w' \<and> w' = w\<lparr>grid := grid w'\<rparr> \<and> well_formed w'
     \<and> (\<forall>x y. 0 \<le> x \<and> x < cols w \<and> 0 \<le> y \<and> y < rows w \<longrightarrow>
           the_cell (grid w') x y =
             (if alive (the_cell (grid w) x y) = 0 \<and> fade (the_cell (grid w) x y) > 0
              then (the_cell (grid w) x y)\<lparr>fade := fade (the_cell (grid w) x y) - 1\<rparr>
              else the_cell (grid w) x y))"
proof -
  have "\<exists>g'. for_each [0..cols w - 1] (\<lambda>x. for_each [0..rows w - 1] (drawCell x)) (grid w) = Inr g'
         \<and> shaped (cols w) (rows w) g'
         \<and> (\<forall>x y. 0 \<le> x \<and> x < cols w \<and> 0 \<le> y \<and> y < rows w
               \<longrightarrow> (\<lambda>x y old new. new = (if alive old = 0 \<and> fade old > 0
                      then old\<lparr>fade := fade old - 1\<rparr> else old)) x y
                     (the_cell ((\<lambda>g. g) (grid w)) x y) (the_cell ((\<lambda>g. g) g') x y))"
    by (rule grid_loops [where G = "\<lambda>g. g"])
       (use assms drawCell_step in \<open>simp_all add: well_formed_def\<close>)
  then show ?thesis
    unfolding drawGrid_def by (auto simp: well_formed_def)
qed

lemma draws_fade:
  "well_formed w \<Longrightarrow> 0 \<le> x \<Longrightarrow> x < cols w \<Longrightarrow> 0 \<le> y \<Longrightarrow> y < rows w \<Longrightarrow>
   alive (the_cell (grid w) x y) = 0 \<Longrightarrow> int n \<le> fade (the_cell (grid w) x y) \<Longrightarrow>
   \<exists>w'. draws n w = Inr w'
     \<and> the_cell (grid w') x y = (the_cell (grid w) x y)\<lparr>fade := fade (the_cell (grid w) x y) - int n\<rparr>"
proof (induction n arbitrary: w)
  case 0
  then show ?case by simp
next
  case (Suc n)
  let ?c = "the_cell (grid w) x y"
  obtain w1 where w1: "drawGrid w = Inr w1" "w1 = w\<lparr>grid := grid w1\<rparr>" "well_formed w1"
      "the_cell (grid w1) x y = ?c\<lparr>fade := fade ?c - 1\<rparr>"
    using drawGrid_cells [OF Suc.prems(1)] Suc.prems(2-) by fastforce
  have same: "cols w1 = cols w" "rows w1 = rows w"
    by (subst w1(2), simp)+
  have "\<exists>w'. draws n w1 = Inr w'
     \<and> the_cell (grid w') x y = (the_cell (grid w1) x y)\<lparr>fade := fade (the_cell (grid w1) x y) - int n\<rparr>"
    using Suc.prems w1(3,4) same by (intro Suc.IH) simp_all
  then show ?case
    using w1(1,4) by (auto simp: algebra_simps)
qed

subsection \<open>The transition\<close>

lemma getRandomColor_rest:
  "snd (getRandomColor (\<lambda>n. rnd (n + k))) = (\<lambda>n. rnd (n + Suc k))"
  by (simp add: getRandomColor_def)

lemma updateCell_step:
  assumes wf: "well_formed w" and xy: "0 \<le> x" "x < cols w" "0 \<le> y" "y < rows w"
    and nxt: "shaped (cols w) (rows w) (fst t)" and rnd: "\<exists>k. snd t = (\<lambda>n. randoms w (n + k))"
  shows "\<exists>t'. updateCell w x y t = Inr t'
     \<and> (shaped (cols w) (rows w) (fst t') \<and> (\<exists>k. snd t' = (\<lambda>n. randoms w (n + k))))
     \<and> (\<forall>x' y'. 0 \<le> x' \<and> x' < cols w \<and> 0 \<le> y' \<and> y' < rows w \<and> (x', y') \<noteq> (x, y)
               \<longrightarrow> the_cell (fst t') x' y' = the_cell (fst t) x' y')
     \<and> transition w x y (the_cell (fst t) x y) (the_cell (fst t') x y)"
proof -
  obtain nx rd where t: "t = (nx, rd)"
    by (cases t)
  obtain k where k: "rd = (\<lambda>n. randoms w (n + k))"
    using rnd t by auto
  have sh: "shaped (cols w) (rows w) nx"
    using nxt t by simp
  note reads = countNeighbors_sum [OF wf xy] cell_at_well_formed [OF wf xy]
    cell_at_shaped [OF sh xy]
  have same: "\<And>c. the_cell (put_cell nx x y c) x y = c"
    using the_cell_put_cell [OF sh xy xy] by simp
  note writes = shaped_put_cell [OF sh xy(1,2)] the_cell_put_cell [OF sh xy] same
  consider (dies) "alive (the_cell (grid w) x y) = 1"
      "toroidal_sum w x y < 2 \<or> toroidal_sum w x y > 3"
    | (born) "alive (the_cell (grid w) x y) \<noteq> 1" "toroidal_sum w x y = 3"
    | (stays) "alive (the_cell (grid w) x y) = 1"
      "\<not> (toroidal_sum w x y < 2 \<or> toroidal_sum w x y > 3)"
    | (empty) "alive (the_cell (grid w) x y) \<noteq> 1" "toroidal_sum w x y \<noteq> 3"
    by blast
  then show ?thesis
  proof cases
    case dies
    then show ?thesis
      unfolding t updateCell_def transition_def using k
      by (auto simp: reads writes)
  next
    case born
    let ?c = "fst (getRandomColor rd)"
    let ?n = "put_cell nx x y ((the_cell nx x y)\<lparr>alive := 1, color := ?c, fade := 0\<rparr>)"
    have "updateCell w x y t = Inr (?n, snd (getRandomColor rd))"
      unfolding t updateCell_def using born by (simp add: reads split: prod.splits)
    moreover have "\<exists>k'. snd (getRandomColor rd) = (\<lambda>n. randoms w (n + k'))"
      unfolding k getRandomColor_rest by blast
    moreover have "transition w x y (the_cell nx x y) (the_cell ?n x y)"
      unfolding transition_def using born xy k by (auto simp: writes)
    ultimately show ?thesis
      unfolding t using xy by (auto simp: writes)
  next
    case stays
    then show ?thesis
      unfolding t updateCell_def transition_def using k sh
      by (auto simp: reads)
  next
    case empty
    then show ?thesis
      unfolding t updateCell_def transition_def using k sh
      by (auto simp: reads)
  qed
qed

text \<open>
  What one transition does to every cell of a well-formed state; the colours of the
  births are drawn from the sequence of the state, of which the transition leaves a
  suffix.
\<close>

lemma updateGrid_cells:
  assumes wf: "well_formed w"
  shows "\<exists>w'. updateGrid w = Inr w' \<and> well_formed w'
     \<and> (\<exists>k. w' = w\<lparr>grid := grid w', randoms := \<lambda>n. randoms w (n + k)\<rparr>)
     \<and> (\<forall>x y. 0 \<le> x \<and> x < cols w \<and> 0 \<le> y \<and> y < rows w \<longrightarrow>
           transition w x y (the_cell (grid w) x y) (the_cell (grid w') x y))"
proof -
  let ?Inv = "\<lambda>t. shaped (cols w) (rows w) (fst t) \<and> (\<exists>k. snd t = (\<lambda>n. randoms w (n + k)))"
  have "\<exists>t'. for_each [0..cols w - 1] (\<lambda>x. for_each [0..rows w - 1] (updateCell w x))
               (grid w, randoms w) = Inr t' \<and> ?Inv t'
         \<and> (\<forall>x y. 0 \<le> x \<and> x < cols w \<and> 0 \<le> y \<and> y < rows w
               \<longrightarrow> transition w x y (the_cell (fst (grid w, randoms w)) x y) (the_cell (fst t') x y))"
  proof (rule grid_loops [where G = fst and Inv = ?Inv])
    have "randoms w = (\<lambda>n. randoms w (n + 0))"
      by simp
    then show "?Inv (grid w, randoms w)"
      using wf unfolding well_formed_def by (metis fst_conv snd_conv)
  next
    fix x y t
    assume "0 \<le> x" "x < cols w" "0 \<le> y" "y < rows w" "?Inv t"
    then show "\<exists>t'. updateCell w x y t = Inr t' \<and> ?Inv t'
         \<and> (\<forall>x' y'. 0 \<le> x' \<and> x' < cols w \<and> 0 \<le> y' \<and> y' < rows w \<and> (x', y') \<noteq> (x, y)
               \<longrightarrow> the_cell (fst t') x' y' = the_cell (fst t) x' y')
         \<and> transition w x y (the_cell (fst t) x y) (the_cell (fst t') x y)"
      using updateCell_step [OF wf] by blast
  qed
  then obtain nx rd k where run: "for_each [0..cols w - 1] (\<lambda>x. for_each [0..rows w - 1] (updateCell w x))
               (grid w, randoms w) = Inr (nx, rd)" "shaped (cols w) (rows w) nx"
      "rd = (\<lambda>n. randoms w (n + k))"
      "\<forall>x y. 0 \<le> x \<and> x < cols w \<and> 0 \<le> y \<and> y < rows w
               \<longrightarrow> transition w x y (the_cell (grid w) x y) (the_cell nx x y)"
    by auto
  have "updateGrid w = Inr (w\<lparr>grid := nx, randoms := rd\<rparr>)"
    unfolding updateGrid_def using run(1) by simp
  then show ?thesis
    using run(2,3,4) by (auto simp: well_formed_def)
qed

lemma updateGrid_cell:
  assumes "well_formed w" "0 \<le> x" "x < cols w" "0 \<le> y" "y < rows w"
  shows "\<exists>w'. updateGrid w = Inr w' \<and> well_formed w'
     \<and> transition w x y (the_cell (grid w) x y) (the_cell (grid w') x y)"
  using updateGrid_cells [OF assms(1)] assms(2-) by blast

subsection \<open>Gestures\<close>






subsection \<open>The frame loop\<close>




subsection \<open>Launch\<close>




lemma fill_map_made:
  "fill_map n f rnd = Inr (as, r') \<Longrightarrow>
   length as = n \<and> (\<forall>a \<in> set as. \<exists>r r''. f r = Inr (a, r''))"
proof (induction n arbitrary: rnd as)
  case 0
  then show ?case by simp
next
  case (Suc n)
  from Suc.prems obtain a r1 bs where "f rnd = Inr (a, r1)" "fill_map n f r1 = Inr (bs, r')" "as = a # bs"
    by (auto split: sum.splits prod.splits)
  then show ?case
    using Suc.IH [of r1 bs] by auto
qed

lemma createGrid_shaped:
  assumes "createGrid cs rs rnd = Inr (g, rnd')"
  shows "shaped cs rs g"
proof -
  let ?column = "\<lambda>r. case new_Array rs of
                    Inl e \<Rightarrow> Inl e
                  | Inr m \<Rightarrow> fill_map m (\<lambda>r'. Inr (new_cell r')) r"
  have cs: "0 \<le> cs" and g: "fill_map (nat cs) ?column rnd = Inr (g, rnd')"
    using assms by (auto simp: createGrid_def new_Array_def split: if_splits)
  have "0 \<le> rs \<and> length a = nat rs" if a: "a \<in> set g" for a
  proof -
    obtain r r'' where "?column r = Inr (a, r'')"
      using fill_map_made [OF g] a by blast
    then have "0 \<le> rs" "fill_map (nat rs) (\<lambda>r'. Inr (new_cell r')) r = Inr (a, r'')"
      by (auto simp: new_Array_def split: if_splits)
    then show ?thesis
      using fill_map_made [of "nat rs" "\<lambda>r'. Inr (new_cell r')" r a r''] by simp
  qed
  then show ?thesis
    using cs fill_map_made [OF g] by (simp add: shaped_def)
qed

lemma resizeCanvas_well_formed:
  assumes "resizeCanvas ow oh v = Inr w"
  shows "well_formed w"
proof -
  let ?v = "v\<lparr>width := ow, height := oh, cols := ow div cellSize v, rows := oh div cellSize v\<rparr>"
  from assms obtain g rnd' where g: "createGrid (cols ?v) (rows ?v) (randoms ?v) = Inr (g, rnd')"
      and w: "w = ?v\<lparr>grid := g, randoms := rnd'\<rparr>"
    by (auto simp: resizeCanvas_def Let_def split: if_splits sum.splits)
  show ?thesis
    using createGrid_shaped [OF g] unfolding w by (simp add: well_formed_def)
qed

text \<open>Every state that a launch produces is well formed, whatever the inputs.\<close>

lemma startGameOfLife_well_formed:
  assumes "startGameOfLife ow oh opt rnd = Inr w"
  shows "well_formed w"
  using assms unfolding startGameOfLife_def by (rule resizeCanvas_well_formed)


subsection \<open>Evaluating the sample states\<close>

lemmas sample_simps = sample_def halves_def live_def dead_def fading_def well_formed_def shaped_def
  the_cell_def


section \<open>The properties\<close>

text \<open>
  Claim C1.  In a well-formed state, for a position \<open>(x, y)\<close> inside the grid, the count
  that \<^verbatim>\<open>countNeighbors\<close> returns to the transition is the sum of \<open>alive\<close> over the
  eight cells at the offsets taken modulo \<open>cols\<close> and \<open>rows\<close>.  In particular the count
  at \<open>(0, 0)\<close> has the cell at \<open>(cols - 1, rows - 1)\<close> as one of its eight terms.
\<close>

theorem countNeighbors_toroidal:
  assumes "well_formed w" "0 \<le> x" "x < cols w" "0 \<le> y" "y < rows w"
  shows "countNeighbors w x y = Inr (toroidal_sum w x y)
    \<and> countNeighbors w 0 0 =
        Inr (alive (the_cell (grid w) (cols w - 1) (rows w - 1))
             + (\<Sum>(i, j) \<leftarrow> remove1 (- 1, - 1) offsets. alive (torus_cell w i j)))"
proof -
  have pos: "0 < cols w" "0 < rows w"
    using assms by auto
  have "countNeighbors w 0 0 = Inr (toroidal_sum w 0 0)"
    using assms(1) pos by (intro countNeighbors_sum) simp_all
  moreover have "toroidal_sum w 0 0 =
      alive (torus_cell w (- 1) (- 1))
      + (\<Sum>(i, j) \<leftarrow> remove1 (- 1, - 1) offsets. alive (torus_cell w i j))"
    by (simp add: toroidal_sum_def offsets_def)
  moreover have "(- 1) mod cols w = cols w - 1" "(- 1) mod rows w = rows w - 1"
    using pos by (simp_all add: zmod_minus1)
  then have "torus_cell w (- 1) (- 1) = the_cell (grid w) (cols w - 1) (rows w - 1)"
    by (simp add: torus_cell_def)
  ultimately show ?thesis
    using countNeighbors_sum [OF assms] by simp
qed

text \<open>
  On the three by four grid whose only live cell is at \<open>(2, 3)\<close>, the count at \<open>(0, 0)\<close>
  is 1.
\<close>

theorem countNeighbors_toroidal_witness:
  "well_formed corner \<and> cols corner = 3 \<and> rows corner = 4
   \<and> alive (the_cell (grid corner) 2 3) = 1
   \<and> toroidal_sum corner 0 0 = 1
   \<and> countNeighbors corner 0 0 = Inr 1"
proof -
  have wf: "well_formed corner"
    by (simp add: corner_def sample_simps)
  have "toroidal_sum corner 0 0 = 1"
    by (simp add: toroidal_sum_def offsets_def torus_cell_def corner_def sample_simps)
  then show ?thesis
    using countNeighbors_toroidal [of corner 0 0] wf
    by (simp add: corner_def sample_simps)
qed

text \<open>
  Claim C2.  A cell that is alive and has fewer than two or more than three live
  neighbours is dead after the transition, with \<open>fade\<close> 10 and the colour it had.
\<close>

theorem updateGrid_death:
  assumes "well_formed w" "0 \<le> x" "x < cols w" "0 \<le> y" "y < rows w"
    and "alive (the_cell (grid w) x y) = 1"
    and "countNeighbors w x y = Inr n" "n < 2 \<or> n > 3"
  shows "\<exists>w'. updateGrid w = Inr w'
     \<and> alive (the_cell (grid w') x y) = 0
     \<and> fade (the_cell (grid w') x y) = 10
     \<and> color (the_cell (grid w') x y) = color (the_cell (grid w) x y)"
proof -
  have "n = toroidal_sum w x y"
    using countNeighbors_sum [OF assms(1-5)] assms(7) by simp
  then show ?thesis
    using updateGrid_cell [OF assms(1-5)] assms(6,8) by (auto simp: transition_def)
qed

text \<open>The centre of \<open>lone\<close> has no live neighbour and dies.\<close>

theorem updateGrid_death_witness:
  "well_formed lone \<and> alive (the_cell (grid lone) 1 1) = 1 \<and> countNeighbors lone 1 1 = Inr 0
   \<and> (\<exists>w'. updateGrid lone = Inr w'
     \<and> alive (the_cell (grid w') 1 1) = 0
     \<and> fade (the_cell (grid w') 1 1) = 10
     \<and> color (the_cell (grid w') 1 1) = ''hsl(120, 100%, 70%)'')"
proof -
  have wf: "well_formed lone"
    by (simp add: lone_def sample_simps)
  have n: "countNeighbors lone 1 1 = Inr 0"
    by (simp add: countNeighbors_def js_rem_def cell_at_def lone_def sample_simps)
  show ?thesis
    using updateGrid_death [of lone 1 1 0] wf n
    by (simp add: lone_def sample_simps)
qed



text \<open>
  Claim C4.  A cell that is alive and has two or three live neighbours is alive after
  the transition, with its colour and its \<open>fade\<close> unchanged.
\<close>

theorem updateGrid_survival:
  assumes "well_formed w" "0 \<le> x" "x < cols w" "0 \<le> y" "y < rows w"
    and "alive (the_cell (grid w) x y) = 1"
    and "countNeighbors w x y = Inr n" "n = 2 \<or> n = 3"
  shows "\<exists>w'. updateGrid w = Inr w'
     \<and> alive (the_cell (grid w') x y) = 1
     \<and> color (the_cell (grid w') x y) = color (the_cell (grid w) x y)
     \<and> fade (the_cell (grid w') x y) = fade (the_cell (grid w) x y)"
proof -
  have "n = toroidal_sum w x y"
    using countNeighbors_sum [OF assms(1-5)] assms(7) by simp
  then show ?thesis
    using updateGrid_cell [OF assms(1-5)] assms(6,8) by (auto simp: transition_def)
qed

text \<open>The first cell of \<open>ell\<close> is alive with two live neighbours.\<close>

theorem updateGrid_survival_witness:
  "well_formed ell \<and> alive (the_cell (grid ell) 0 0) = 1 \<and> countNeighbors ell 0 0 = Inr 2
   \<and> (\<exists>w'. updateGrid ell = Inr w'
     \<and> alive (the_cell (grid w') 0 0) = 1
     \<and> color (the_cell (grid w') 0 0) = ''hsl(120, 100%, 70%)''
     \<and> fade (the_cell (grid w') 0 0) = 0)"
proof -
  have wf: "well_formed ell"
    by (simp add: ell_def sample_simps)
  have n: "countNeighbors ell 0 0 = Inr 2"
    by (simp add: countNeighbors_def js_rem_def cell_at_def ell_def sample_simps)
  show ?thesis
    using updateGrid_survival [of ell 0 0 2] wf n
    by (simp add: ell_def sample_simps)
qed

text \<open>
  Claim C5.  A cell that is dead and whose count of live neighbours is not three is
  after the transition the cell it was, in all its fields; in particular the transition
  leaves its \<open>fade\<close> as it is.
\<close>

theorem updateGrid_dead_unchanged:
  assumes "well_formed w" "0 \<le> x" "x < cols w" "0 \<le> y" "y < rows w"
    and "alive (the_cell (grid w) x y) = 0"
    and "countNeighbors w x y = Inr n" "n \<noteq> 3"
  shows "\<exists>w'. updateGrid w = Inr w' \<and> the_cell (grid w') x y = the_cell (grid w) x y"
proof -
  have "n = toroidal_sum w x y"
    using countNeighbors_sum [OF assms(1-5)] assms(7) by simp
  then show ?thesis
    using updateGrid_cell [OF assms(1-5)] assms(6,8) by (auto simp: transition_def)
qed

text \<open>The fading corner of \<open>lone\<close> has one live neighbour and keeps its \<open>fade\<close> of 3.\<close>

theorem updateGrid_dead_unchanged_witness:
  "well_formed lone \<and> alive (the_cell (grid lone) 0 0) = 0 \<and> countNeighbors lone 0 0 = Inr 1
   \<and> (\<exists>w'. updateGrid lone = Inr w' \<and> the_cell (grid w') 0 0 = fading)"
proof -
  have wf: "well_formed lone"
    by (simp add: lone_def sample_simps)
  have n: "countNeighbors lone 0 0 = Inr 1"
    by (simp add: countNeighbors_def js_rem_def cell_at_def lone_def sample_simps)
  show ?thesis
    using updateGrid_dead_unchanged [of lone 0 0 1] wf n
    by (simp add: lone_def sample_simps)
qed

text \<open>
  Claim C6.  One run of \<^verbatim>\<open>drawGrid\<close> takes 1 from the \<open>fade\<close> of a cell that is dead with a
  positive \<open>fade\<close>, and leaves every other cell (alive, or dead with no \<open>fade\<close> left) as it
  is.  Painting \<open>n\<close> times in a row takes \<open>n\<close> from the \<open>fade\<close> of such a cell as long as
  \<open>n\<close> does not exceed it: the \<open>fade\<close> is 0 after exactly as many runs as its value, and
  positive before.
\<close>

theorem drawGrid_fade:
  assumes "well_formed w" "0 \<le> x" "x < cols w" "0 \<le> y" "y < rows w"
  shows "\<exists>w'. drawGrid w = Inr w'
     \<and> the_cell (grid w') x y =
         (if alive (the_cell (grid w) x y) = 0 \<and> fade (the_cell (grid w) x y) > 0
          then (the_cell (grid w) x y)\<lparr>fade := fade (the_cell (grid w) x y) - 1\<rparr>
          else the_cell (grid w) x y)
     \<and> (alive (the_cell (grid w) x y) = 0 \<and> fade (the_cell (grid w) x y) > 0 \<longrightarrow>
          (\<forall>n. int n \<le> fade (the_cell (grid w) x y) \<longrightarrow>
             (\<exists>w''. draws n w = Inr w''
                \<and> alive (the_cell (grid w'') x y) = 0
                \<and> fade (the_cell (grid w'') x y) = fade (the_cell (grid w) x y) - int n)))"
proof -
  have "alive (the_cell (grid w) x y) = 0 \<Longrightarrow> int n \<le> fade (the_cell (grid w) x y) \<Longrightarrow>
      \<exists>w''. draws n w = Inr w''
                \<and> alive (the_cell (grid w'') x y) = 0
                \<and> fade (the_cell (grid w'') x y) = fade (the_cell (grid w) x y) - int n" for n
    using draws_fade [OF assms, of n] by auto
  then show ?thesis
    using drawGrid_cells [OF assms(1)] assms(2-) by fastforce
qed

text \<open>
  The fading corner of \<open>lone\<close> has \<open>fade\<close> 3: 2 after one run, 0 after three.
\<close>

theorem drawGrid_fade_witness:
  "well_formed lone \<and> the_cell (grid lone) 0 0 = fading \<and> the_cell (grid lone) 1 1 = live
   \<and> (\<exists>w'. drawGrid lone = Inr w' \<and> the_cell (grid w') 0 0 = fading\<lparr>fade := 2\<rparr>)
   \<and> (\<exists>w'. draws 3 lone = Inr w' \<and> alive (the_cell (grid w') 0 0) = 0
          \<and> fade (the_cell (grid w') 0 0) = 0)"
proof -
  have wf: "well_formed lone"
    by (simp add: lone_def sample_simps)
  have c: "the_cell (grid lone) 0 0 = fading" "the_cell (grid lone) 1 1 = live"
      "0 \<le> (0::int)" "0 < cols lone" "0 < rows lone"
    by (simp_all add: lone_def sample_def the_cell_def)
  have f: "alive fading = 0" "fade fading = 3" "fading\<lparr>fade := 3 - 1\<rparr> = fading\<lparr>fade := 2\<rparr>"
    by (simp_all add: fading_def)
  from drawGrid_fade [OF wf c(3,4) c(3,5)] obtain w' where w': "drawGrid lone = Inr w'"
      "the_cell (grid w') 0 0 = fading\<lparr>fade := 2\<rparr>"
      "\<forall>n. int n \<le> 3 \<longrightarrow> (\<exists>w''. draws n lone = Inr w''
                \<and> alive (the_cell (grid w'') 0 0) = 0
                \<and> fade (the_cell (grid w'') 0 0) = 3 - int n)"
    unfolding c(1) f by auto
  from w'(3) [rule_format, of 3] have "\<exists>w''. draws 3 lone = Inr w''
                \<and> alive (the_cell (grid w'') 0 0) = 0 \<and> fade (the_cell (grid w'') 0 0) = 0"
    by simp
  then show ?thesis
    using wf c(1,2) w'(1,2) by simp
qed








text \<open>
  Claim C10.  On a grid with fewer than three columns or fewer than three rows, two
  different offsets lead \<^verbatim>\<open>countNeighbors\<close> to the same column and row, so that the
  cell there enters the sum more than once.  On the grid of one cell all eight offsets
  lead to that cell: the count is eight times its \<open>alive\<close>, that is 8 for a live cell,
  which the transition then kills.
\<close>

theorem countNeighbors_small_grid:
  assumes "well_formed w" "0 \<le> x" "x < cols w" "0 \<le> y" "y < rows w"
    and "cols w < 3 \<or> rows w < 3"
  shows "countNeighbors w x y = Inr (toroidal_sum w x y)
     \<and> (\<exists>p q. p \<in> set offsets \<and> q \<in> set offsets \<and> p \<noteq> q
            \<and> neighbor_position w x y p = neighbor_position w x y q)
     \<and> (cols w = 1 \<and> rows w = 1 \<longrightarrow>
          countNeighbors w x y = Inr (8 * alive (the_cell (grid w) 0 0))
          \<and> (alive (the_cell (grid w) 0 0) = 1 \<longrightarrow>
               countNeighbors w x y = Inr 8
               \<and> (\<exists>w'. updateGrid w = Inr w' \<and> alive (the_cell (grid w') 0 0) = 0
                      \<and> fade (the_cell (grid w') 0 0) = 10)))"
proof -
  note count = countNeighbors_sum [OF assms(1-5)]
  have twice: "\<exists>p q. p \<in> set offsets \<and> q \<in> set offsets \<and> p \<noteq> q
            \<and> neighbor_position w x y p = neighbor_position w x y q"
    using assms(6)
  proof
    assume "cols w < 3"
    then have "cols w = 1 \<or> cols w = 2"
      using assms(2,3) by linarith
    then have "(x - 1) mod cols w = (x + 1) mod cols w"
      by (rule disjE) (simp, simp, presburger)
    then have "neighbor_position w x y (- 1, 0) = neighbor_position w x y (1, 0)"
      using assms(2,3) by (simp add: neighbor_position_def js_rem_wraps)
    moreover have "(- 1, 0) \<in> set offsets" "(1, 0) \<in> set offsets" "((- 1, 0) :: int \<times> int) \<noteq> (1, 0)"
      by (simp_all add: offsets_def)
    ultimately show ?thesis
      by blast
  next
    assume "rows w < 3"
    then have "rows w = 1 \<or> rows w = 2"
      using assms(4,5) by linarith
    then have "(y - 1) mod rows w = (y + 1) mod rows w"
      by (rule disjE) (simp, simp, presburger)
    then have "neighbor_position w x y (0, - 1) = neighbor_position w x y (0, 1)"
      using assms(4,5) by (simp add: neighbor_position_def js_rem_wraps)
    moreover have "(0, - 1) \<in> set offsets" "(0, 1) \<in> set offsets" "((0, - 1) :: int \<times> int) \<noteq> (0, 1)"
      by (simp_all add: offsets_def)
    ultimately show ?thesis
      by blast
  qed
  have one: "countNeighbors w x y = Inr (8 * alive (the_cell (grid w) 0 0))
          \<and> (alive (the_cell (grid w) 0 0) = 1 \<longrightarrow>
               countNeighbors w x y = Inr 8
               \<and> (\<exists>w'. updateGrid w = Inr w' \<and> alive (the_cell (grid w') 0 0) = 0
                      \<and> fade (the_cell (grid w') 0 0) = 10))"
    if single: "cols w = 1" "rows w = 1"
  proof -
    have n: "toroidal_sum w 0 0 = 8 * alive (the_cell (grid w) 0 0)"
        "toroidal_sum w x y = 8 * alive (the_cell (grid w) 0 0)"
      using single by (rule toroidal_sum_single)+
    have "\<exists>w'. updateGrid w = Inr w' \<and> well_formed w'
        \<and> transition w 0 0 (the_cell (grid w) 0 0) (the_cell (grid w') 0 0)"
      using single by (intro updateGrid_cell [OF assms(1)]) simp_all
    then show ?thesis
      using count n by (auto simp: transition_def)
  qed
  show ?thesis
    using count twice one by blast
qed

text \<open>
  The state \<open>single\<close>: one live cell, counted eight times, dead after the transition.
\<close>

theorem countNeighbors_small_grid_witness:
  "well_formed single \<and> cols single = 1 \<and> rows single = 1
   \<and> alive (the_cell (grid single) 0 0) = 1
   \<and> countNeighbors single 0 0 = Inr 8
   \<and> (\<exists>p q. p \<in> set offsets \<and> q \<in> set offsets \<and> p \<noteq> q
            \<and> neighbor_position single 0 0 p = neighbor_position single 0 0 q)
   \<and> (\<exists>w'. updateGrid single = Inr w' \<and> alive (the_cell (grid w') 0 0) = 0
          \<and> fade (the_cell (grid w') 0 0) = 10)"
proof -
  have wf: "well_formed single"
    by (simp add: single_def sample_simps)
  have c: "cols single = 1" "rows single = 1" "alive (the_cell (grid single) 0 0) = 1"
    by (simp_all add: single_def sample_simps)
  have h: "0 \<le> (0::int)" "0 < cols single" "0 < rows single" "cols single < 3 \<or> rows single < 3"
    by (simp_all add: c)
  show ?thesis
    using countNeighbors_small_grid [OF wf h(1,2) h(1,3) h(4)] wf c by blast
qed

end
